theory Spec2Isabelle
  imports Complex_Main "HOL-Library.FSet" "HOL-Library.AList"
begin

section \<open>The watch-party room server\<close>

text \<open>
  The server keeps one process-wide \<^verbatim>\<open>rooms\<close> map from room id to a room object and
  installs, for every connected socket, one handler per inbound event. The model follows
  the latest of the three revisions in the repository (the one with room passwords, the
  recommendation queue, bore votes and \<^verbatim>\<open>disconnect_button\<close>); the two earlier
  revisions have the same handlers with fewer fields, a skip of five seconds in the earliest
  one, and \<^verbatim>\<open>isPlaying: false\<close> after \<^verbatim>\<open>change_video\<close>.

  Each handler is a function from the server state to the new state and the list of
  messages it emits, in order. The three handlers that only read
  (\<^verbatim>\<open>get_room_info\<close>, \<^verbatim>\<open>get_room_list\<close>, \<^verbatim>\<open>chat_message\<close>) are left out.
  Payload fields have the types of the protocol: identifiers, nicknames and directions are
  strings, times are finite numbers, a password may be absent.
\<close>

subsection \<open>What a tally entry can hold\<close>

text \<open>
  \<^verbatim>\<open>room.skipCounts\<close> is a plain object indexed by the \<^verbatim>\<open>direction\<close> string of the
  request. Reading a key that is not an own property falls through to
  \<^verbatim>\<open>Object.prototype\<close>, so an entry is a number, \<^verbatim>\<open>NaN\<close>, \<^verbatim>\<open>undefined\<close>, or
  one of the inherited functions and objects (and the strings that \<^verbatim>\<open>+ 1\<close> makes of
  them): \<open>NonNumeric\<close> stands for those, which are truthy and convert to \<^verbatim>\<open>NaN\<close>.
\<close>

datatype jsval = Num int | NaN | Undefined | NonNumeric

type_synonym jsobject = "string \<rightharpoonup> jsval"

definition object_prototype_keys :: "string list" where
  "object_prototype_keys =
     [''constructor'', ''__defineGetter__'', ''__defineSetter__'', ''hasOwnProperty'',
      ''__lookupGetter__'', ''__lookupSetter__'', ''isPrototypeOf'', ''propertyIsEnumerable'',
      ''toString'', ''valueOf'', ''__proto__'', ''toLocaleString'']"

text \<open>\<^verbatim>\<open>obj[k]\<close>: the own property, else the inherited one, else \<^verbatim>\<open>undefined\<close>.\<close>

definition obj_get :: "jsobject \<Rightarrow> string \<Rightarrow> jsval" where
  "obj_get obj k =
     (case obj k of
        Some v \<Rightarrow> v
      | None \<Rightarrow> if k \<in> set object_prototype_keys then NonNumeric else Undefined)"

text \<open>
  \<^verbatim>\<open>obj[k] = v\<close>: creates or overwrites the own property; the \<^verbatim>\<open>__proto__\<close> setter
  ignores anything that is not an object.
\<close>

definition obj_set :: "jsobject \<Rightarrow> string \<Rightarrow> jsval \<Rightarrow> jsobject" where
  "obj_set obj k v = (if k = ''__proto__'' then obj else obj(k \<mapsto> v))"

text \<open>\<^verbatim>\<open>v || 0\<close>\<close>

fun js_or0 :: "jsval \<Rightarrow> jsval" where
  "js_or0 (Num n) = (if n = 0 then Num 0 else Num n)"
| "js_or0 NaN = Num 0"
| "js_or0 Undefined = Num 0"
| "js_or0 NonNumeric = NonNumeric"

text \<open>\<^verbatim>\<open>v + 1\<close>: addition on numbers, concatenation on the others.\<close>

fun js_add1 :: "jsval \<Rightarrow> jsval" where
  "js_add1 (Num n) = Num (n + 1)"
| "js_add1 NaN = NaN"
| "js_add1 Undefined = NaN"
| "js_add1 NonNumeric = NonNumeric"

text \<open>\<^verbatim>\<open>v - 1\<close>\<close>

fun js_sub1 :: "jsval \<Rightarrow> jsval" where
  "js_sub1 (Num n) = Num (n - 1)"
| "js_sub1 v = NaN"

text \<open>\<^verbatim>\<open>Math.max(v, 0)\<close>\<close>

fun math_max0 :: "jsval \<Rightarrow> jsval" where
  "math_max0 (Num n) = Num (max n 0)"
| "math_max0 v = NaN"

text \<open>\<^verbatim>\<open>v >= x\<close> for a number \<open>x\<close>: false whenever \<open>v\<close> converts to \<^verbatim>\<open>NaN\<close>.\<close>

fun js_ge :: "jsval \<Rightarrow> real \<Rightarrow> bool" where
  "js_ge (Num n) x = (x \<le> real_of_int n)"
| "js_ge v x = False"

definition zero_counts :: jsobject where
  "zero_counts = [''forward'' \<mapsto> Num 0, ''backward'' \<mapsto> Num 0]"

subsection \<open>Rooms and the server state\<close>

type_synonym sid = string
type_synonym roomId = string

record room =
  hostId :: sid
  videoId :: string
  currentTime :: real
  isPlaying :: bool
  skipCounts :: jsobject
  skipUsers :: "sid fset"
  users :: "(sid \<times> string) list"
  password :: "string option"
  boreVotes :: "sid fset"
  recommendQueue :: "string list"

text \<open>
  \<open>users\<close> is a \<^verbatim>\<open>Map\<close>, which keeps insertion order: \<^verbatim>\<open>set\<close> is \<open>AList.update\<close>
  (a known key keeps its place, a new one goes last), \<^verbatim>\<open>delete\<close> is \<open>AList.delete\<close>,
  \<^verbatim>\<open>size\<close> is the length. The two \<^verbatim>\<open>Set\<close>s are finite sets, \<^verbatim>\<open>size\<close> is \<open>fcard\<close>.
\<close>

text \<open>
  A pending \<^verbatim>\<open>setTimeout\<close> callback of \<^verbatim>\<open>skip_request\<close>. Its closure holds the room
  object itself (not the room id), the socket id, the room id and the direction.
\<close>

datatype timer = Timer nat sid roomId string

text \<open>
  Room objects live in a store and the \<^verbatim>\<open>rooms\<close> map holds references to them, because a
  timer keeps its room object after the room has been deleted or replaced under the same id.
  \<open>groups\<close> are the transport's broadcast groups (\<^verbatim>\<open>socket.join\<close>,
  \<^verbatim>\<open>io.socketsLeave\<close>). All timers have the same delay, so they fire in the order in
  which they were set: \<open>timers\<close> is a queue.
\<close>

record server =
  heap :: "nat \<rightharpoonup> room"
  next_ref :: nat
  rooms :: "(roomId \<times> nat) list"
  groups :: "roomId \<Rightarrow> sid fset"
  timers :: "timer list"

definition init_server :: server where
  "init_server =
     \<lparr>heap = Map.empty, next_ref = 0, rooms = [], groups = (\<lambda>r. {||}), timers = []\<rparr>"

subsection \<open>Outbound messages\<close>

text \<open>
  \<open>Sock\<close> is \<^verbatim>\<open>socket.emit\<close>, \<open>Group\<close> is \<^verbatim>\<open>io.to(roomId).emit\<close> (everyone in the
  group, the sender included), \<open>GroupExcept\<close> is \<^verbatim>\<open>socket.to(roomId).emit\<close> (everyone
  in the group but the sender).
\<close>

datatype target = Sock sid | Group roomId | GroupExcept roomId sid

text \<open>The two error texts of the source: the room does not exist, the password is wrong.\<close>

datatype error = NoSuchRoom | WrongPassword

record room_data =
  rd_videoId :: string
  rd_isHost :: bool
  rd_currentTime :: real
  rd_isPlaying :: bool
  rd_skipCounts :: jsobject
  rd_usersCount :: nat
  rd_userList :: "string list"
  rd_isLocked :: bool
  rd_recommendQueue :: "string list"

datatype message =
    Out_room_created roomId
  | Out_error error
  | Out_room_data room_data
  | Out_user_list_update "string list"
  | Out_video_play
  | Out_video_pause
  | Out_video_seek real
  | Out_video_changed string real bool jsobject
  | Out_recommend_queue_updated "string list"
  | Out_bore_vote_update nat
  | Out_skip_counts_update jsobject
  | Out_room_closed

type_synonym emit = "target \<times> message"

subsection \<open>Access to the room map\<close>

text \<open>\<^verbatim>\<open>rooms.get(roomId)\<close>: the reference and the object behind it.\<close>

definition rooms_get :: "server \<Rightarrow> roomId \<Rightarrow> (nat \<times> room) option" where
  "rooms_get s roomId =
     (case map_of (rooms s) roomId of
        None \<Rightarrow> None
      | Some a \<Rightarrow> (case heap s a of None \<Rightarrow> None | Some r \<Rightarrow> Some (a, r)))"

text \<open>A mutation of the object behind a reference.\<close>

definition store :: "nat \<Rightarrow> room \<Rightarrow> server \<Rightarrow> server" where
  "store a r s = s\<lparr>heap := (heap s)(a \<mapsto> r)\<rparr>"

text \<open>\<^verbatim>\<open>socket.join(roomId)\<close>\<close>

definition socket_join :: "sid \<Rightarrow> roomId \<Rightarrow> server \<Rightarrow> server" where
  "socket_join sock roomId s = s\<lparr>groups := (groups s)(roomId := finsert sock (groups s roomId))\<rparr>"

text \<open>\<^verbatim>\<open>io.socketsLeave(roomId)\<close>\<close>

definition sockets_leave :: "roomId \<Rightarrow> server \<Rightarrow> server" where
  "sockets_leave roomId s = s\<lparr>groups := (groups s)(roomId := {||})\<rparr>"

subsection \<open>The handlers\<close>

definition create_room :: "sid \<Rightarrow> roomId \<Rightarrow> string \<Rightarrow> string option \<Rightarrow> server \<Rightarrow> server \<times> emit list" where
  "create_room sock roomId vid pw s =
     (let a = next_ref s;
          r = \<lparr>hostId = sock, videoId = vid, currentTime = 0, isPlaying = False,
               skipCounts = zero_counts, skipUsers = {||}, users = [],
               password = (case pw of None \<Rightarrow> None | Some p \<Rightarrow> if p = [] then None else Some p),
               boreVotes = {||}, recommendQueue = []\<rparr>;
          s1 = s\<lparr>heap := (heap s)(a \<mapsto> r), next_ref := Suc a,
                 rooms := AList.update roomId a (rooms s)\<rparr>
      in (socket_join sock roomId s1, [(Sock sock, Out_room_created roomId)]))"

definition join_room :: "sid \<Rightarrow> roomId \<Rightarrow> string \<Rightarrow> string option \<Rightarrow> server \<Rightarrow> server \<times> emit list" where
  "join_room sock roomId nickname pw s =
     (case rooms_get s roomId of
        None \<Rightarrow> (s, [(Sock sock, Out_error NoSuchRoom)])
      | Some (a, r) \<Rightarrow>
          if sock \<noteq> hostId r \<and> password r \<noteq> None \<and> pw \<noteq> password r
          then (s, [(Sock sock, Out_error WrongPassword)])
          else
            let r1 = r\<lparr>users := AList.update sock nickname (users r)\<rparr>
            in (store a r1 (socket_join sock roomId s),
                [(Sock sock, Out_room_data
                    \<lparr>rd_videoId = videoId r1, rd_isHost = (sock = hostId r1),
                     rd_currentTime = currentTime r1, rd_isPlaying = isPlaying r1,
                     rd_skipCounts = skipCounts r1, rd_usersCount = length (users r1),
                     rd_userList = map snd (users r1), rd_isLocked = (password r1 \<noteq> None),
                     rd_recommendQueue = recommendQueue r1\<rparr>),
                 (Group roomId, Out_user_list_update (map snd (users r1)))]))"

definition host_current_time_update :: "sid \<Rightarrow> roomId \<Rightarrow> real \<Rightarrow> server \<Rightarrow> server \<times> emit list" where
  "host_current_time_update sock roomId t s =
     (case rooms_get s roomId of
        None \<Rightarrow> (s, [])
      | Some (a, r) \<Rightarrow>
          if sock \<noteq> hostId r then (s, [])
          else (store a (r\<lparr>currentTime := t\<rparr>) s, []))"

definition video_play :: "sid \<Rightarrow> roomId \<Rightarrow> server \<Rightarrow> server \<times> emit list" where
  "video_play sock roomId s =
     (case rooms_get s roomId of
        None \<Rightarrow> (s, [])
      | Some (a, r) \<Rightarrow>
          if sock \<noteq> hostId r then (s, [])
          else (store a (r\<lparr>isPlaying := True\<rparr>) s, [(GroupExcept roomId sock, Out_video_play)]))"

definition video_pause :: "sid \<Rightarrow> roomId \<Rightarrow> server \<Rightarrow> server \<times> emit list" where
  "video_pause sock roomId s =
     (case rooms_get s roomId of
        None \<Rightarrow> (s, [])
      | Some (a, r) \<Rightarrow>
          if sock \<noteq> hostId r then (s, [])
          else (store a (r\<lparr>isPlaying := False\<rparr>) s, [(GroupExcept roomId sock, Out_video_pause)]))"

definition video_seek :: "sid \<Rightarrow> roomId \<Rightarrow> real \<Rightarrow> server \<Rightarrow> server \<times> emit list" where
  "video_seek sock roomId t s =
     (case rooms_get s roomId of
        None \<Rightarrow> (s, [])
      | Some (a, r) \<Rightarrow>
          if sock \<noteq> hostId r then (s, [])
          else (store a (r\<lparr>currentTime := t\<rparr>) s, [(GroupExcept roomId sock, Out_video_seek t)]))"

definition change_video :: "sid \<Rightarrow> roomId \<Rightarrow> string \<Rightarrow> server \<Rightarrow> server \<times> emit list" where
  "change_video sock roomId newVideoId s =
     (case rooms_get s roomId of
        None \<Rightarrow> (s, [])
      | Some (a, r) \<Rightarrow>
          if sock \<noteq> hostId r then (s, [])
          else
            let r1 = r\<lparr>videoId := newVideoId, currentTime := 0, isPlaying := True,
                       skipCounts := zero_counts, skipUsers := {||}\<rparr>
            in (store a r1 s,
                [(Group roomId, Out_video_changed newVideoId 0 True (skipCounts r1))]))"

definition add_recommend_video :: "sid \<Rightarrow> roomId \<Rightarrow> string \<Rightarrow> server \<Rightarrow> server \<times> emit list" where
  "add_recommend_video sock roomId vid s =
     (case rooms_get s roomId of
        None \<Rightarrow> (s, [])
      | Some (a, r) \<Rightarrow>
          let r1 = r\<lparr>recommendQueue := recommendQueue r @ [vid]\<rparr>
          in (store a r1 s, [(Group roomId, Out_recommend_queue_updated (recommendQueue r1))]))"

text \<open>
  The branch that \<^verbatim>\<open>video_ended\<close> and the bore quorum both have: play the front of the
  recommendation queue, or stop when the queue is empty.
\<close>

definition play_next :: "roomId \<Rightarrow> room \<Rightarrow> room \<times> emit list" where
  "play_next roomId r =
     (case recommendQueue r of
        nextVideoId # rest \<Rightarrow>
          (r\<lparr>recommendQueue := rest, videoId := nextVideoId, currentTime := 0, isPlaying := True\<rparr>,
           [(Group roomId, Out_video_changed nextVideoId 0 True zero_counts),
            (Group roomId, Out_recommend_queue_updated rest)])
      | [] \<Rightarrow> (r\<lparr>isPlaying := False\<rparr>, []))"

definition video_ended :: "sid \<Rightarrow> roomId \<Rightarrow> server \<Rightarrow> server \<times> emit list" where
  "video_ended sock roomId s =
     (case rooms_get s roomId of
        None \<Rightarrow> (s, [])
      | Some (a, r) \<Rightarrow>
          if sock \<noteq> hostId r then (s, [])
          else
            let (r1, out) = play_next roomId r;
                r2 = r1\<lparr>boreVotes := {||}\<rparr>
            in (store a r2 s, out @ [(Group roomId, Out_bore_vote_update 0)]))"

definition bore_vote :: "sid \<Rightarrow> roomId \<Rightarrow> server \<Rightarrow> server \<times> emit list" where
  "bore_vote sock roomId s =
     (case rooms_get s roomId of
        None \<Rightarrow> (s, [])
      | Some (a, r) \<Rightarrow>
          if sock |\<in>| boreVotes r then (s, [])
          else
            let r1 = r\<lparr>boreVotes := finsert sock (boreVotes r)\<rparr>;
                out1 = [(Group roomId, Out_bore_vote_update (fcard (boreVotes r1)))];
                totalUsers = length (users r1)
            in if real (fcard (boreVotes r1)) > real totalUsers / 2
               then
                 let (r2, out2) = play_next roomId r1;
                     r3 = r2\<lparr>boreVotes := {||}\<rparr>
                 in (store a r3 s, out1 @ out2 @ [(Group roomId, Out_bore_vote_update 0)])
               else (store a r1 s, out1))"

definition skip_request :: "sid \<Rightarrow> roomId \<Rightarrow> string \<Rightarrow> server \<Rightarrow> server \<times> emit list" where
  "skip_request sock roomId direction s =
     (case rooms_get s roomId of
        None \<Rightarrow> (s, [])
      | Some (a, r) \<Rightarrow>
          if sock |\<in>| skipUsers r then (s, [])
          else
            let r1 = r\<lparr>skipUsers := finsert sock (skipUsers r),
                       skipCounts := obj_set (skipCounts r) direction
                                       (js_add1 (js_or0 (obj_get (skipCounts r) direction)))\<rparr>;
                roomSize = length (users r1);
                (r4, out) =
                  (if js_ge (obj_get (skipCounts r1) direction) (real roomSize / 2)
                   then
                     let skipSeconds = (if direction = ''forward'' then 10 else -10);
                         r2 = r1\<lparr>currentTime := max (currentTime r1 + skipSeconds) 0\<rparr>;
                         r3 = r2\<lparr>skipCounts := zero_counts, skipUsers := {||}\<rparr>
                     in (r3, [(Group roomId, Out_video_seek (currentTime r3)),
                              (Group roomId, Out_skip_counts_update (skipCounts r3))])
                   else (r1, [(Group roomId, Out_skip_counts_update (skipCounts r1))]))
            in (store a r4 (s\<lparr>timers := timers s @ [Timer a sock roomId direction]\<rparr>), out))"

text \<open>The body of the timer callback, run on the room object that the closure holds.\<close>

definition skip_expiry :: "timer \<Rightarrow> server \<Rightarrow> server \<times> emit list" where
  "skip_expiry t s =
     (case t of Timer a sock roomId direction \<Rightarrow>
        (case heap s a of
           None \<Rightarrow> (s, [])
         | Some r \<Rightarrow>
             let r1 = r\<lparr>skipUsers := skipUsers r |-| {|sock|}\<rparr>;
                 r2 = r1\<lparr>skipCounts := obj_set (skipCounts r1) direction
                                        (math_max0 (js_sub1 (obj_get (skipCounts r1) direction)))\<rparr>
             in (store a r2 s, [(Group roomId, Out_skip_counts_update (skipCounts r2))])))"

text \<open>The oldest pending timer fires.\<close>

definition timer_fires :: "server \<Rightarrow> server \<times> emit list" where
  "timer_fires s =
     (case timers s of
        [] \<Rightarrow> (s, [])
      | t # ts \<Rightarrow> skip_expiry t (s\<lparr>timers := ts\<rparr>))"

text \<open>
  The loop of the two disconnect handlers: the first entry of \<^verbatim>\<open>rooms\<close>, in insertion
  order, whose \<open>users\<close> has the socket.
\<close>

fun first_room_of :: "(nat \<rightharpoonup> room) \<Rightarrow> sid \<Rightarrow> (roomId \<times> nat) list \<Rightarrow> (roomId \<times> nat \<times> room) option" where
  "first_room_of h sock [] = None"
| "first_room_of h sock ((roomId, a) # rest) =
     (case h a of
        None \<Rightarrow> first_room_of h sock rest
      | Some r \<Rightarrow>
          if map_of (users r) sock \<noteq> None then Some (roomId, a, r)
          else first_room_of h sock rest)"

text \<open>The body shared, word for word, by \<^verbatim>\<open>disconnect\<close> and \<^verbatim>\<open>disconnect_button\<close>.\<close>

definition leave_room :: "sid \<Rightarrow> server \<Rightarrow> server \<times> emit list" where
  "leave_room sock s =
     (case first_room_of (heap s) sock (rooms s) of
        None \<Rightarrow> (s, [])
      | Some (roomId, a, r) \<Rightarrow>
          let r1 = r\<lparr>users := AList.delete sock (users r)\<rparr>;
              s1 = store a r1 s
          in if hostId r1 = sock
             then (sockets_leave roomId (s1\<lparr>rooms := AList.delete roomId (rooms s1)\<rparr>),
                   [(Group roomId, Out_room_closed)])
             else (s1, [(Group roomId, Out_user_list_update (map snd (users r1)))]))"

text \<open>
  When \<^verbatim>\<open>disconnect\<close> is delivered the transport has already taken the socket out of
  every group; \<^verbatim>\<open>disconnect_button\<close> is an ordinary event of a socket that stays
  connected.
\<close>

definition disconnect :: "sid \<Rightarrow> server \<Rightarrow> server \<times> emit list" where
  "disconnect sock s = leave_room sock (s\<lparr>groups := (\<lambda>g. groups s g |-| {|sock|})\<rparr>)"

definition disconnect_button :: "sid \<Rightarrow> server \<Rightarrow> server \<times> emit list" where
  "disconnect_button sock s = leave_room sock s"

subsection \<open>Dispatch\<close>

datatype event =
    On_create_room sid roomId string "string option"
  | On_join_room sid roomId string "string option"
  | On_host_current_time_update sid roomId real
  | On_video_play sid roomId
  | On_video_pause sid roomId
  | On_video_seek sid roomId real
  | On_change_video sid roomId string
  | On_add_recommend_video sid roomId string
  | On_video_ended sid roomId
  | On_bore_vote sid roomId
  | On_skip_request sid roomId string
  | On_timer
  | On_disconnect sid
  | On_disconnect_button sid

fun handle :: "event \<Rightarrow> server \<Rightarrow> server \<times> emit list" where
  "handle (On_create_room sock roomId vid pw) s = create_room sock roomId vid pw s"
| "handle (On_join_room sock roomId nickname pw) s = join_room sock roomId nickname pw s"
| "handle (On_host_current_time_update sock roomId t) s = host_current_time_update sock roomId t s"
| "handle (On_video_play sock roomId) s = video_play sock roomId s"
| "handle (On_video_pause sock roomId) s = video_pause sock roomId s"
| "handle (On_video_seek sock roomId t) s = video_seek sock roomId t s"
| "handle (On_change_video sock roomId newVideoId) s = change_video sock roomId newVideoId s"
| "handle (On_add_recommend_video sock roomId vid) s = add_recommend_video sock roomId vid s"
| "handle (On_video_ended sock roomId) s = video_ended sock roomId s"
| "handle (On_bore_vote sock roomId) s = bore_vote sock roomId s"
| "handle (On_skip_request sock roomId direction) s = skip_request sock roomId direction s"
| "handle On_timer s = timer_fires s"
| "handle (On_disconnect sock) s = disconnect sock s"
| "handle (On_disconnect_button sock) s = disconnect_button sock s"

text \<open>The event loop: one event at a time, each on the state the previous one left.\<close>

fun run :: "event list \<Rightarrow> server \<Rightarrow> server" where
  "run [] s = s"
| "run (e # es) s = run es (fst (handle e s))"

subsection \<open>Observations used by the properties\<close>

text \<open>The number a tally entry counts as: the entry itself, or 0 when it is missing or not a number.\<close>

definition tally :: "room \<Rightarrow> string \<Rightarrow> int" where
  "tally r d = (case skipCounts r d of Some (Num n) \<Rightarrow> n | _ \<Rightarrow> 0)"

text \<open>The six host-only commands, with their sender and room.\<close>

fun host_command :: "event \<Rightarrow> (sid \<times> roomId) option" where
  "host_command (On_video_play sock roomId) = Some (sock, roomId)"
| "host_command (On_video_pause sock roomId) = Some (sock, roomId)"
| "host_command (On_video_seek sock roomId t) = Some (sock, roomId)"
| "host_command (On_change_video sock roomId v) = Some (sock, roomId)"
| "host_command (On_host_current_time_update sock roomId t) = Some (sock, roomId)"
| "host_command (On_video_ended sock roomId) = Some (sock, roomId)"
| "host_command e = None"

text \<open>Every room of the room map has a playback time that is not negative.\<close>

definition time_ok :: "server \<Rightarrow> bool" where
  "time_ok s =
     list_all (\<lambda>(roomId, a). case heap s a of None \<Rightarrow> True | Some r \<Rightarrow> 0 \<le> currentTime r) (rooms s)"

text \<open>The times that the host sends are not negative.\<close>

fun time_payload_ok :: "event \<Rightarrow> bool" where
  "time_payload_ok (On_video_seek sock roomId t) = (0 \<le> t)"
| "time_payload_ok (On_host_current_time_update sock roomId t) = (0 \<le> t)"
| "time_payload_ok e = True"

text \<open>
  The entries of \<^verbatim>\<open>skipCounts\<close> in a room that the handlers have built: the two
  directions hold numbers that are not negative, and only a key inherited from
  \<^verbatim>\<open>Object.prototype\<close> can hold something that is not a number.
\<close>

definition counts_ok :: "room \<Rightarrow> bool" where
  "counts_ok r \<longleftrightarrow>
     (\<exists>k\<ge>0. skipCounts r ''forward'' = Some (Num k))
   \<and> (\<exists>k\<ge>0. skipCounts r ''backward'' = Some (Num k))
   \<and> (\<forall>d. skipCounts r d = Some NonNumeric \<longrightarrow> d \<in> set object_prototype_keys)"

definition all_rooms :: "(room \<Rightarrow> bool) \<Rightarrow> server \<Rightarrow> bool" where
  "all_rooms P s \<longleftrightarrow> (\<forall>a r. heap s a = Some r \<longrightarrow> P r)"

text \<open>
  What the specification says of a \<^verbatim>\<open>skip_request\<close> whose direction is neither
  \<^verbatim>\<open>forward\<close> nor \<^verbatim>\<open>backward\<close>: the vote is counted under that key, from 0 when the
  key is new, the quorum test reads that count, and a quorum moves the time back by ten
  seconds. This definition follows the specification, not the source.
\<close>

definition spec_skip_other_direction ::
    "sid \<Rightarrow> roomId \<Rightarrow> string \<Rightarrow> nat \<Rightarrow> room \<Rightarrow> server \<Rightarrow> server \<times> emit list" where
  "spec_skip_other_direction sock roomId d a r s =
     (let k = tally r d + 1;
          s1 = s\<lparr>timers := timers s @ [Timer a sock roomId d]\<rparr>;
          t = max (currentTime r - 10) 0
      in if real (length (users r)) / 2 \<le> real_of_int k
         then (store a (r\<lparr>currentTime := t, skipCounts := zero_counts, skipUsers := {||}\<rparr>) s1,
               [(Group roomId, Out_video_seek t), (Group roomId, Out_skip_counts_update zero_counts)])
         else (store a (r\<lparr>skipUsers := finsert sock (skipUsers r),
                           skipCounts := (skipCounts r)(d \<mapsto> Num k)\<rparr>) s1,
               [(Group roomId, Out_skip_counts_update ((skipCounts r)(d \<mapsto> Num k)))]))"

subsection \<open>Example sessions\<close>

text \<open>A room \<open>R\<close> whose host \<open>h\<close> has joined, alone.\<close>

definition solo_events :: "event list" where
  "solo_events = [On_create_room ''h'' ''R'' ''v1'' None, On_join_room ''h'' ''R'' ''Host'' None]"

definition solo :: server where
  "solo = run solo_events init_server"

definition solo_room :: room where
  "solo_room = \<lparr>hostId = ''h'', videoId = ''v1'', currentTime = 0, isPlaying = False,
       skipCounts = zero_counts, skipUsers = {||}, users = [(''h'', ''Host'')],
       password = None, boreVotes = {||}, recommendQueue = []\<rparr>"

text \<open>The same room with three guests \<open>a\<close>, \<open>b\<close>, \<open>c\<close>: four participants.\<close>

definition party_events :: "event list" where
  "party_events = solo_events @
     [On_join_room ''a'' ''R'' ''Ann'' None, On_join_room ''b'' ''R'' ''Bob'' None,
      On_join_room ''c'' ''R'' ''Cy'' None]"

definition party :: server where
  "party = run party_events init_server"

definition party_room :: room where
  "party_room = solo_room\<lparr>users := [(''h'', ''Host''), (''a'', ''Ann''), (''b'', ''Bob''), (''c'', ''Cy'')]\<rparr>"

text \<open>Then \<open>a\<close> votes to skip forward and votes the video boring: one vote of four, each.\<close>

definition voted_events :: "event list" where
  "voted_events = party_events @ [On_skip_request ''a'' ''R'' ''forward'', On_bore_vote ''a'' ''R'']"

definition voted :: server where
  "voted = run voted_events init_server"

definition voted_room :: room where
  "voted_room = party_room\<lparr>skipCounts := zero_counts(''forward'' \<mapsto> Num 1),
                            skipUsers := {|''a''|}, boreVotes := {|''a''|}\<rparr>"

text \<open>The host creates a room and loses the connection before joining it.\<close>

definition orphaned :: server where
  "orphaned = run [On_create_room ''h'' ''R'' ''v1'' None, On_disconnect ''h''] init_server"

definition fresh_room :: room where
  "fresh_room = solo_room\<lparr>users := []\<rparr>"

text \<open>
  Three skip votes in a row in the room of four: the second reaches the quorum and resets
  the votes, the third is cast after the reset, and the timer of the first is still pending.
\<close>

definition stale_timer_events :: "event list" where
  "stale_timer_events = party_events @
     [On_skip_request ''a'' ''R'' ''forward'', On_skip_request ''b'' ''R'' ''forward'',
      On_skip_request ''c'' ''R'' ''forward'']"

text \<open>
  In the room of four, \<open>a\<close> and \<open>b\<close> vote forward, which reaches the quorum and resets the
  votes, and \<open>a\<close> votes backward in the new round: the timer of the first vote of \<open>a\<close> is
  the oldest one pending, and the timer of its backward vote is behind it.
\<close>

definition revote_events :: "event list" where
  "revote_events = party_events @
     [On_skip_request ''a'' ''R'' ''forward'', On_skip_request ''b'' ''R'' ''forward'',
      On_skip_request ''a'' ''R'' ''backward'']"

section \<open>Basic facts\<close>

lemmas handler_defs =
  create_room_def join_room_def host_current_time_update_def video_play_def video_pause_def
  video_seek_def change_video_def add_recommend_video_def play_next_def video_ended_def
  bore_vote_def skip_request_def skip_expiry_def timer_fires_def leave_room_def disconnect_def
  disconnect_button_def rooms_get_def store_def socket_join_def sockets_leave_def
  obj_get_def obj_set_def object_prototype_keys_def Let_def fcard_finsert_if fcard_fempty

lemma run_append: "run (es @ es') s = run es' (run es s)"
  by (induction es arbitrary: s) simp_all

lemma rooms_get_store:
  "rooms_get s roomId = Some (a, r) \<Longrightarrow> rooms_get (store a r' s) roomId = Some (a, r')"
  by (auto simp: rooms_get_def store_def split: option.splits)

lemma rooms_get_timers [simp]: "rooms_get (s\<lparr>timers := ts\<rparr>) roomId = rooms_get s roomId"
  by (simp add: rooms_get_def split: option.splits)

lemma zero_counts_simps [simp]:
  "zero_counts ''forward'' = Some (Num 0)" "zero_counts ''backward'' = Some (Num 0)"
  by (simp_all add: zero_counts_def)

lemma js_or0_Num [simp]: "js_or0 (Num n) = Num n"
  by simp

lemma obj_get_own [simp]: "obj k = Some v \<Longrightarrow> obj_get obj k = v"
  by (simp add: obj_get_def)

lemma obj_set_plain [simp]: "k \<noteq> ''__proto__'' \<Longrightarrow> obj_set obj k v = obj(k \<mapsto> v)"
  by (simp add: obj_set_def)

lemma tally_Num: "skipCounts r d = Some (Num k) \<Longrightarrow> tally r d = k"
  by (simp add: tally_def)

subsection \<open>The example sessions, evaluated\<close>

lemma solo_eq:
  "solo = \<lparr>heap = [0 \<mapsto> solo_room], next_ref = 1, rooms = [(''R'', 0)],
           groups = (\<lambda>r. {||})(''R'' := {|''h''|}), timers = []\<rparr>"
  by (simp add: solo_def solo_events_def solo_room_def init_server_def handler_defs)

lemma solo_get: "rooms_get solo ''R'' = Some (0, solo_room)"
  by (simp add: solo_eq rooms_get_def)

lemma solo_timers: "timers solo = []"
  by (simp add: solo_eq)

lemma party_eq:
  "party = \<lparr>heap = [0 \<mapsto> party_room], next_ref = 1, rooms = [(''R'', 0)],
            groups = (\<lambda>r. {||})(''R'' := {|''c'', ''b'', ''a'', ''h''|}), timers = []\<rparr>"
  unfolding party_def party_events_def run_append solo_def [symmetric]
  by (simp add: solo_eq party_room_def solo_room_def handler_defs)

lemma party_get: "rooms_get party ''R'' = Some (0, party_room)"
  by (simp add: party_eq rooms_get_def)

lemma voted_eq:
  "voted = party\<lparr>heap := [0 \<mapsto> voted_room], timers := [Timer 0 ''a'' ''R'' ''forward'']\<rparr>"
  unfolding voted_def voted_events_def run_append party_def [symmetric]
  by (simp add: voted_room_def party_eq party_room_def solo_room_def handler_defs)

lemma voted_get: "rooms_get voted ''R'' = Some (0, voted_room)"
  by (simp add: voted_eq party_eq rooms_get_def)

subsection \<open>What an accepted vote does\<close>

lemma skip_request_counted:
  assumes "rooms_get s roomId = Some (a, r)"
    and "sock |\<notin>| skipUsers r"
    and "d = ''forward'' \<or> d = ''backward''"
    and "skipCounts r d = Some (Num k)"
  shows "skip_request sock roomId d s =
     (let s1 = s\<lparr>timers := timers s @ [Timer a sock roomId d]\<rparr>;
          t = max (currentTime r + (if d = ''forward'' then 10 else - 10)) 0
      in if real (length (users r)) / 2 \<le> real_of_int (k + 1)
         then (store a (r\<lparr>currentTime := t, skipCounts := zero_counts, skipUsers := {||}\<rparr>) s1,
               [(Group roomId, Out_video_seek t), (Group roomId, Out_skip_counts_update zero_counts)])
         else (store a (r\<lparr>skipUsers := finsert sock (skipUsers r),
                           skipCounts := (skipCounts r)(d \<mapsto> Num (k + 1))\<rparr>) s1,
               [(Group roomId, Out_skip_counts_update ((skipCounts r)(d \<mapsto> Num (k + 1))))]))"
proof -
  have d: "d \<noteq> ''__proto__''" using assms(3) by auto
  show ?thesis
    using assms(1,2,4) d
    by (simp add: skip_request_def Let_def del: js_or0.simps)
qed

lemma bore_vote_counted:
  assumes "rooms_get s roomId = Some (a, r)"
    and "sock |\<notin>| boreVotes r"
  shows "bore_vote sock roomId s =
     (let n = Suc (fcard (boreVotes r))
      in if real (length (users r)) / 2 < real n
         then (case recommendQueue r of
                 v # rest \<Rightarrow>
                   (store a (r\<lparr>recommendQueue := rest, videoId := v, currentTime := 0,
                                isPlaying := True, boreVotes := {||}\<rparr>) s,
                    [(Group roomId, Out_bore_vote_update n),
                     (Group roomId, Out_video_changed v 0 True zero_counts),
                     (Group roomId, Out_recommend_queue_updated rest),
                     (Group roomId, Out_bore_vote_update 0)])
               | [] \<Rightarrow>
                   (store a (r\<lparr>isPlaying := False, boreVotes := {||}\<rparr>) s,
                    [(Group roomId, Out_bore_vote_update n), (Group roomId, Out_bore_vote_update 0)]))
         else (store a (r\<lparr>boreVotes := finsert sock (boreVotes r)\<rparr>) s,
               [(Group roomId, Out_bore_vote_update n)]))"
  using assms
  by (simp add: bore_vote_def play_next_def Let_def fcard_finsert_if split: list.splits)

section \<open>Invariants of the handlers\<close>

subsection \<open>The playback time\<close>

lemma time_ok_iff:
  "time_ok s \<longleftrightarrow>
     (\<forall>roomId a r. (roomId, a) \<in> set (rooms s) \<longrightarrow> heap s a = Some r \<longrightarrow> 0 \<le> currentTime r)"
  by (auto simp: time_ok_def list_all_iff split: option.splits)

lemma time_ok_store:
  assumes "time_ok s" and "heap s a = Some r" and "0 \<le> currentTime r \<Longrightarrow> 0 \<le> currentTime r'"
  shows "time_ok (store a r' s)"
  using assms unfolding time_ok_iff store_def by (auto split: if_splits)

lemma time_ok_got:
  assumes "time_ok s" and "rooms_get s roomId = Some (a, r)"
  shows "heap s a = Some r" and "0 \<le> currentTime r"
proof -
  from assms(2) have m: "map_of (rooms s) roomId = Some a" and h: "heap s a = Some r"
    by (auto simp: rooms_get_def split: option.splits)
  show "heap s a = Some r" by (rule h)
  from m have "(roomId, a) \<in> set (rooms s)" by (rule map_of_SomeD)
  with assms(1) h show "0 \<le> currentTime r" unfolding time_ok_iff by blast
qed

lemma time_ok_update:
  assumes "time_ok s" and "rooms_get s roomId = Some (a, r)"
    and "0 \<le> currentTime r \<Longrightarrow> 0 \<le> currentTime r'"
  shows "time_ok (store a r' s)"
  using time_ok_store [OF assms(1) time_ok_got(1) [OF assms(1,2)]] assms(3) by simp

lemma time_ok_timers [simp]: "time_ok (s\<lparr>timers := ts\<rparr>) = time_ok s"
  by (simp add: time_ok_def)

lemma time_ok_groups [simp]: "time_ok (s\<lparr>groups := g\<rparr>) = time_ok s"
  by (simp add: time_ok_def)

lemma time_ok_socket_join [simp]: "time_ok (socket_join sock roomId s) = time_ok s"
  by (simp add: socket_join_def)

lemma time_ok_sockets_leave [simp]: "time_ok (sockets_leave roomId s) = time_ok s"
  by (simp add: sockets_leave_def)

lemma set_update_subset: "set (AList.update k v al) \<subseteq> insert (k, v) (set al)"
  by (induction al) auto

lemma time_ok_new:
  assumes "time_ok s" and "0 \<le> currentTime r'"
  shows "time_ok (s\<lparr>heap := (heap s)(a \<mapsto> r'), next_ref := n,
                    rooms := AList.update roomId a (rooms s)\<rparr>)"
  unfolding time_ok_iff
proof (intro allI impI)
  fix rid b r
  assume mem: "(rid, b) \<in> set (rooms (s\<lparr>heap := (heap s)(a \<mapsto> r'), next_ref := n,
                    rooms := AList.update roomId a (rooms s)\<rparr>))"
    and hp: "heap (s\<lparr>heap := (heap s)(a \<mapsto> r'), next_ref := n,
                    rooms := AList.update roomId a (rooms s)\<rparr>) b = Some r"
  show "0 \<le> currentTime r"
  proof (cases "b = a")
    case True
    with hp assms(2) show ?thesis by simp
  next
    case False
    with mem set_update_subset [of roomId a "rooms s"]
    have "(rid, b) \<in> set (rooms s)" by auto
    moreover from hp False have "heap s b = Some r" by simp
    ultimately show ?thesis using assms(1) unfolding time_ok_iff by blast
  qed
qed

lemma time_ok_delete: "time_ok s \<Longrightarrow> time_ok (s\<lparr>rooms := AList.delete roomId (rooms s)\<rparr>)"
  unfolding time_ok_iff by (auto simp: AList.delete_eq)

lemma time_ok_create_room: "time_ok s \<Longrightarrow> time_ok (fst (create_room sock roomId vid pw s))"
  by (simp add: create_room_def Let_def time_ok_new)

lemma time_ok_join_room: "time_ok s \<Longrightarrow> time_ok (fst (join_room sock roomId nickname pw s))"
  by (auto simp: join_room_def Let_def socket_join_def rooms_get_def
      intro!: time_ok_store dest: time_ok_got split: option.splits)

lemma time_ok_host_current_time_update:
  "time_ok s \<Longrightarrow> 0 \<le> t \<Longrightarrow> time_ok (fst (host_current_time_update sock roomId t s))"
  by (simp add: host_current_time_update_def time_ok_update split: option.splits)

lemma time_ok_video_play: "time_ok s \<Longrightarrow> time_ok (fst (video_play sock roomId s))"
  by (simp add: video_play_def time_ok_update split: option.splits)

lemma time_ok_video_pause: "time_ok s \<Longrightarrow> time_ok (fst (video_pause sock roomId s))"
  by (simp add: video_pause_def time_ok_update split: option.splits)

lemma time_ok_video_seek: "time_ok s \<Longrightarrow> 0 \<le> t \<Longrightarrow> time_ok (fst (video_seek sock roomId t s))"
  by (simp add: video_seek_def time_ok_update split: option.splits)

lemma time_ok_change_video: "time_ok s \<Longrightarrow> time_ok (fst (change_video sock roomId v s))"
  by (simp add: change_video_def Let_def time_ok_update split: option.splits)

lemma time_ok_add_recommend_video:
  "time_ok s \<Longrightarrow> time_ok (fst (add_recommend_video sock roomId v s))"
  by (simp add: add_recommend_video_def Let_def time_ok_update split: option.splits)

lemma play_next_time: "0 \<le> currentTime r \<Longrightarrow> 0 \<le> currentTime (fst (play_next roomId r))"
  by (simp add: play_next_def split: list.splits)

lemma time_ok_video_ended: "time_ok s \<Longrightarrow> time_ok (fst (video_ended sock roomId s))"
  by (simp add: video_ended_def Let_def case_prod_unfold time_ok_update play_next_time
      split: option.splits)

lemma time_ok_bore_vote: "time_ok s \<Longrightarrow> time_ok (fst (bore_vote sock roomId s))"
  by (simp add: bore_vote_def Let_def case_prod_unfold time_ok_update play_next_time
      split: option.splits)

lemma time_ok_skip_request: "time_ok s \<Longrightarrow> time_ok (fst (skip_request sock roomId d s))"
  by (simp add: skip_request_def Let_def time_ok_update split: option.splits)

lemma time_ok_timer_fires: "time_ok s \<Longrightarrow> time_ok (fst (timer_fires s))"
  by (simp add: timer_fires_def skip_expiry_def Let_def time_ok_store
      split: list.splits timer.splits option.splits)

lemma first_room_of_heap:
  "first_room_of h sock al = Some (roomId, a, r) \<Longrightarrow> h a = Some r"
  by (induction al) (auto split: option.splits if_splits)

lemma time_ok_leave_room:
  assumes "time_ok s"
  shows "time_ok (fst (leave_room sock s))"
proof (cases "first_room_of (heap s) sock (rooms s)")
  case None
  then show ?thesis using assms by (simp add: leave_room_def)
next
  case (Some x)
  obtain roomId a r where x: "x = (roomId, a, r)" by (cases x)
  have h: "heap s a = Some r" using Some x by (auto dest: first_room_of_heap)
  have st: "time_ok (store a (r\<lparr>users := AList.delete sock (users r)\<rparr>) s)"
    using assms h by (rule time_ok_store) simp
  show ?thesis
    using Some x st time_ok_delete [OF st, of roomId]
    by (simp add: leave_room_def Let_def)
qed

lemma time_ok_disconnect: "time_ok s \<Longrightarrow> time_ok (fst (disconnect sock s))"
  by (simp add: disconnect_def time_ok_leave_room)

lemma time_ok_handle:
  assumes "time_ok s" and "time_payload_ok e"
  shows "time_ok (fst (handle e s))"
  using assms
  by (cases e)
    (simp_all add: time_ok_create_room time_ok_join_room time_ok_host_current_time_update
      time_ok_video_play time_ok_video_pause time_ok_video_seek time_ok_change_video
      time_ok_add_recommend_video time_ok_video_ended time_ok_bore_vote time_ok_skip_request
      time_ok_timer_fires time_ok_disconnect time_ok_leave_room disconnect_button_def)

lemma time_ok_run:
  "time_ok s \<Longrightarrow> list_all time_payload_ok es \<Longrightarrow> time_ok (run es s)"
  by (induction es arbitrary: s) (simp_all add: time_ok_handle)

lemma init_time_ok: "time_ok init_server"
  by (simp add: time_ok_def init_server_def)

subsection \<open>The tally entries\<close>

lemma all_rooms_store: "all_rooms P s \<Longrightarrow> P r' \<Longrightarrow> all_rooms P (store a r' s)"
  by (simp add: all_rooms_def store_def)

lemma all_rooms_got: "all_rooms P s \<Longrightarrow> rooms_get s roomId = Some (a, r) \<Longrightarrow> P r"
  by (auto simp: all_rooms_def rooms_get_def split: option.splits)

lemma all_rooms_timers [simp]: "all_rooms P (s\<lparr>timers := ts\<rparr>) = all_rooms P s"
  by (simp add: all_rooms_def)

lemma all_rooms_groups [simp]: "all_rooms P (s\<lparr>groups := g\<rparr>) = all_rooms P s"
  by (simp add: all_rooms_def)

lemma all_rooms_rooms [simp]: "all_rooms P (s\<lparr>rooms := al\<rparr>) = all_rooms P s"
  by (simp add: all_rooms_def)

lemma counts_ok_zero: "counts_ok (r\<lparr>skipCounts := zero_counts\<rparr>)"
  by (auto simp: counts_ok_def zero_counts_def)

lemma counts_ok_other_fields [simp]:
  "counts_ok (r\<lparr>users := u\<rparr>) = counts_ok r"
  "counts_ok (r\<lparr>currentTime := t\<rparr>) = counts_ok r"
  "counts_ok (r\<lparr>isPlaying := p\<rparr>) = counts_ok r"
  "counts_ok (r\<lparr>videoId := v\<rparr>) = counts_ok r"
  "counts_ok (r\<lparr>skipUsers := su\<rparr>) = counts_ok r"
  "counts_ok (r\<lparr>boreVotes := bv\<rparr>) = counts_ok r"
  "counts_ok (r\<lparr>recommendQueue := q\<rparr>) = counts_ok r"
  by (simp_all add: counts_ok_def)

text \<open>A vote keeps the entries well formed, whatever the direction string is.\<close>

lemma counts_ok_vote:
  assumes "counts_ok r"
  shows "counts_ok (r\<lparr>skipCounts :=
           obj_set (skipCounts r) d (js_add1 (js_or0 (obj_get (skipCounts r) d)))\<rparr>)"
proof (cases "d = ''__proto__''")
  case True
  then show ?thesis using assms by (simp add: obj_set_def counts_ok_def)
next
  case False
  let ?v = "js_add1 (js_or0 (obj_get (skipCounts r) d))"
  have nn: "?v = NonNumeric \<Longrightarrow> d \<in> set object_prototype_keys"
    using assms
    by (cases "skipCounts r d"; cases "obj_get (skipCounts r) d")
      (auto simp: obj_get_def counts_ok_def split: if_splits)
  have f: "d = ''forward'' \<Longrightarrow> \<exists>k\<ge>0. ?v = Num k"
    using assms by (auto simp: counts_ok_def)
  have b: "d = ''backward'' \<Longrightarrow> \<exists>k\<ge>0. ?v = Num k"
    using assms by (auto simp: counts_ok_def)
  show ?thesis
    using False assms nn f b unfolding counts_ok_def
    by (auto simp add: obj_set_def simp del: js_or0.simps js_add1.simps)
qed

text \<open>So does the expiry of a vote.\<close>

lemma counts_ok_expire:
  assumes "counts_ok r"
  shows "counts_ok (r\<lparr>skipCounts :=
           obj_set (skipCounts r) d (math_max0 (js_sub1 (obj_get (skipCounts r) d)))\<rparr>)"
proof (cases "d = ''__proto__''")
  case True
  then show ?thesis using assms by (simp add: obj_set_def counts_ok_def)
next
  case False
  let ?v = "math_max0 (js_sub1 (obj_get (skipCounts r) d))"
  have nn: "?v \<noteq> NonNumeric"
    by (cases "obj_get (skipCounts r) d") auto
  have f: "d = ''forward'' \<Longrightarrow> \<exists>k\<ge>0. ?v = Num k"
    using assms by (auto simp: counts_ok_def)
  have b: "d = ''backward'' \<Longrightarrow> \<exists>k\<ge>0. ?v = Num k"
    using assms by (auto simp: counts_ok_def)
  show ?thesis
    using False assms nn f b unfolding counts_ok_def
    by (auto simp add: obj_set_def simp del: js_sub1.simps math_max0.simps)
qed

lemma counts_ok_play_next: "counts_ok r \<Longrightarrow> counts_ok (fst (play_next roomId r))"
  by (simp add: play_next_def counts_ok_def split: list.splits)

lemma all_rooms_create_room:
  "all_rooms counts_ok s \<Longrightarrow> all_rooms counts_ok (fst (create_room sock roomId vid pw s))"
  using counts_ok_zero [of "\<lparr>hostId = sock, videoId = vid, currentTime = 0, isPlaying = False,
               skipCounts = zero_counts, skipUsers = {||}, users = [],
               password = (case pw of None \<Rightarrow> None | Some p \<Rightarrow> if p = [] then None else Some p),
               boreVotes = {||}, recommendQueue = []\<rparr>"]
  by (simp add: create_room_def Let_def socket_join_def all_rooms_def)

lemma all_rooms_leave_room:
  "all_rooms counts_ok s \<Longrightarrow> all_rooms counts_ok (fst (leave_room sock s))"
  by (auto simp: leave_room_def Let_def sockets_leave_def all_rooms_def store_def
      dest!: first_room_of_heap split: option.splits)

lemma all_rooms_skip_request:
  assumes "all_rooms counts_ok s"
  shows "all_rooms counts_ok (fst (skip_request sock roomId d s))"
proof (cases "rooms_get s roomId")
  case None
  then show ?thesis using assms by (simp add: skip_request_def)
next
  case (Some x)
  obtain a r where x: "x = (a, r)" by (cases x)
  have ok: "counts_ok r" using assms Some x by (auto dest: all_rooms_got)
  let ?r1 = "r\<lparr>skipUsers := finsert sock (skipUsers r),
                skipCounts := obj_set (skipCounts r) d (js_add1 (js_or0 (obj_get (skipCounts r) d)))\<rparr>"
  have ok1: "counts_ok ?r1"
    using counts_ok_vote [OF ok, of d] by (simp add: counts_ok_def)
  have ok3: "counts_ok (?r1\<lparr>currentTime := t, skipCounts := zero_counts, skipUsers := {||}\<rparr>)" for t
    by (simp add: counts_ok_def zero_counts_def)
  show ?thesis
    using assms Some x ok1 ok3
    by (simp add: skip_request_def Let_def all_rooms_store del: js_or0.simps)
qed

lemma all_rooms_timer_fires:
  assumes "all_rooms counts_ok s"
  shows "all_rooms counts_ok (fst (timer_fires s))"
proof (cases "timers s")
  case Nil
  then show ?thesis using assms by (simp add: timer_fires_def)
next
  case (Cons t ts)
  obtain a sock roomId d where t: "t = Timer a sock roomId d" by (cases t)
  show ?thesis
  proof (cases "heap s a")
    case None
    then show ?thesis using assms Cons t by (simp add: timer_fires_def skip_expiry_def)
  next
    case (Some r)
    have ok: "counts_ok r" using assms Some by (auto simp: all_rooms_def)
    have "counts_ok (r\<lparr>skipUsers := skipUsers r |-| {|sock|},
            skipCounts := obj_set (skipCounts r) d (math_max0 (js_sub1 (obj_get (skipCounts r) d)))\<rparr>)"
      using counts_ok_expire [OF ok, of d] by (simp add: counts_ok_def)
    then show ?thesis
      using assms Cons t Some
      by (simp add: timer_fires_def skip_expiry_def Let_def all_rooms_store)
  qed
qed

lemma all_rooms_handle:
  assumes "all_rooms counts_ok s"
  shows "all_rooms counts_ok (fst (handle e s))"
proof (cases e)
  case (On_create_room sock roomId vid pw)
  then show ?thesis using assms by (simp add: all_rooms_create_room)
next
  case (On_join_room sock roomId nickname pw)
  then show ?thesis using assms
    by (auto simp: join_room_def Let_def socket_join_def
        intro!: all_rooms_store dest: all_rooms_got split: option.splits)
next
  case (On_host_current_time_update sock roomId t)
  then show ?thesis using assms
    by (auto simp: host_current_time_update_def
        intro!: all_rooms_store dest: all_rooms_got split: option.splits)
next
  case (On_video_play sock roomId)
  then show ?thesis using assms
    by (auto simp: video_play_def intro!: all_rooms_store dest: all_rooms_got split: option.splits)
next
  case (On_video_pause sock roomId)
  then show ?thesis using assms
    by (auto simp: video_pause_def intro!: all_rooms_store dest: all_rooms_got split: option.splits)
next
  case (On_video_seek sock roomId t)
  then show ?thesis using assms
    by (auto simp: video_seek_def intro!: all_rooms_store dest: all_rooms_got split: option.splits)
next
  case (On_change_video sock roomId v)
  then show ?thesis using assms
    by (auto simp: change_video_def Let_def counts_ok_zero intro!: all_rooms_store split: option.splits)
next
  case (On_add_recommend_video sock roomId v)
  then show ?thesis using assms
    by (auto simp: add_recommend_video_def Let_def
        intro!: all_rooms_store dest: all_rooms_got split: option.splits)
next
  case (On_video_ended sock roomId)
  then show ?thesis using assms
    by (auto simp: video_ended_def Let_def case_prod_unfold counts_ok_play_next
        intro!: all_rooms_store dest: all_rooms_got split: option.splits)
next
  case (On_bore_vote sock roomId)
  then show ?thesis using assms
    by (auto simp: bore_vote_def Let_def case_prod_unfold counts_ok_play_next
        intro!: all_rooms_store dest: all_rooms_got split: option.splits)
next
  case (On_skip_request sock roomId d)
  then show ?thesis using assms by (simp add: all_rooms_skip_request)
next
  case On_timer
  then show ?thesis using assms by (simp add: all_rooms_timer_fires)
next
  case (On_disconnect sock)
  then show ?thesis using assms by (simp add: disconnect_def all_rooms_leave_room)
next
  case (On_disconnect_button sock)
  then show ?thesis using assms by (simp add: disconnect_button_def all_rooms_leave_room)
qed

lemma all_rooms_run: "all_rooms counts_ok s \<Longrightarrow> all_rooms counts_ok (run es s)"
  by (induction es arbitrary: s) (simp_all add: all_rooms_handle)

text \<open>Every room that a sequence of events builds from the empty server has well-formed entries.\<close>

lemma counts_ok_reachable:
  assumes "rooms_get (run es init_server) roomId = Some (a, r)"
  shows "counts_ok r"
proof -
  have "all_rooms counts_ok init_server" by (simp add: all_rooms_def init_server_def)
  then have "all_rooms counts_ok (run es init_server)" by (rule all_rooms_run)
  then show ?thesis using assms by (rule all_rooms_got)
qed

lemma counts_ok_direction:
  assumes "counts_ok r" and "d = ''forward'' \<or> d = ''backward''"
  shows "skipCounts r d = Some (Num (tally r d))" and "0 \<le> tally r d"
  using assms by (auto simp: counts_ok_def tally_def)

section \<open>The properties\<close>

subsection \<open>Playback time\<close>

text \<open>
  Claim C1, as amended. The playback time of every room in the room map is at least 0 after
  each event of a sequence, including the expiry timers, provided that every
  \<^verbatim>\<open>video_seek\<close> and \<^verbatim>\<open>host_current_time_update\<close> in the sequence carries a time that is
  at least 0. The skip quorum clamps at 0, the video changes set 0, and the other handlers
  leave the time alone; the two handlers that take a time from the host store it as sent.
\<close>

theorem current_time_nonneg:
  assumes "time_ok s" and "list_all time_payload_ok es"
  shows "\<forall>n. time_ok (run (take n es) s)"
proof
  fix n
  have "list_all time_payload_ok (take n es)"
    using assms(2) by (auto simp: list_all_iff dest: in_set_takeD)
  with assms(1) show "time_ok (run (take n es) s)" by (rule time_ok_run)
qed

text \<open>
  An instance: the host seeks to second 4, then a skip backward reaches the quorum in the
  room of one and is clamped at 0.
\<close>

theorem current_time_nonneg_witness:
  "time_ok init_server
   \<and> list_all time_payload_ok
        (solo_events @ [On_video_seek ''h'' ''R'' 4, On_skip_request ''x'' ''R'' ''backward''])
   \<and> time_ok (run (take 4
        (solo_events @ [On_video_seek ''h'' ''R'' 4, On_skip_request ''x'' ''R'' ''backward'']))
        init_server)"
  using current_time_nonneg [of init_server
        "solo_events @ [On_video_seek ''h'' ''R'' 4, On_skip_request ''x'' ''R'' ''backward'']",
        THEN spec, of 4]
  by (simp add: init_time_ok solo_events_def)

text \<open>
  Claim C1 as stated fails: a \<^verbatim>\<open>video_seek\<close> of the host with time -5 leaves the room at -5.
\<close>

theorem negative_seek_counterexample:
  "\<not> time_ok (run [On_create_room ''h'' ''R'' ''v1'' None, On_video_seek ''h'' ''R'' (- 5)] init_server)"
  by (simp add: time_ok_def init_server_def create_room_def video_seek_def rooms_get_def
      store_def socket_join_def Let_def)

subsection \<open>Host authority\<close>

text \<open>
  Claim C2. When the sender of a host-only command (\<^verbatim>\<open>video_play\<close>, \<^verbatim>\<open>video_pause\<close>,
  \<^verbatim>\<open>video_seek\<close>, \<^verbatim>\<open>change_video\<close>, \<^verbatim>\<open>host_current_time_update\<close>, \<^verbatim>\<open>video_ended\<close>)
  is not the host of the room, the whole server state is unchanged and nothing is emitted.
\<close>

theorem non_host_command_dropped:
  assumes "host_command e = Some (sock, roomId)"
    and "rooms_get s roomId = Some (a, r)"
    and "sock \<noteq> hostId r"
  shows "handle e s = (s, [])"
  using assms
  by (cases e) (simp_all add: video_play_def video_pause_def video_seek_def change_video_def
      host_current_time_update_def video_ended_def)

theorem non_host_command_dropped_witness:
  "host_command (On_video_seek ''a'' ''R'' 42) = Some (''a'', ''R'')
   \<and> rooms_get party ''R'' = Some (0, party_room)
   \<and> ''a'' \<noteq> hostId party_room
   \<and> handle (On_video_seek ''a'' ''R'' 42) party = (party, [])"
  using non_host_command_dropped [of "On_video_seek ''a'' ''R'' 42" "''a''" "''R''" party 0 party_room]
  by (simp add: party_get party_room_def solo_room_def)

subsection \<open>Skip votes\<close>

text \<open>
  Claim C3. In a room that a sequence of events has built, the tally of each of the two
  directions is a number that is not negative. A vote for one of them by a connection that
  holds no pending vote raises that tally by one, and the quorum fires exactly when the new
  tally is at least half the number of participants. The quorum sets the time to
  \<open>max (currentTime + delta) 0\<close> with \<open>delta\<close> 10 for forward and -10 for backward, resets
  both tallies to 0 and empties the voter set, and sends the new time as \<^verbatim>\<open>video_seek\<close> and
  then the reset tallies to the whole group. Without quorum the voter is recorded and the
  new tallies are sent. In both cases the expiry timer of the vote is set.
\<close>

theorem skip_quorum:
  assumes "rooms_get (run es init_server) roomId = Some (a, r)"
    and "sock |\<notin>| skipUsers r"
    and "d = ''forward'' \<or> d = ''backward''"
  shows "skipCounts r d = Some (Num (tally r d)) \<and> 0 \<le> tally r d
    \<and> skip_request sock roomId d (run es init_server) =
       (let s = run es init_server;
            s1 = s\<lparr>timers := timers s @ [Timer a sock roomId d]\<rparr>;
            k = tally r d + 1;
            t = max (currentTime r + (if d = ''forward'' then 10 else - 10)) 0
        in if real (length (users r)) / 2 \<le> real_of_int k
           then (store a (r\<lparr>currentTime := t, skipCounts := zero_counts, skipUsers := {||}\<rparr>) s1,
                 [(Group roomId, Out_video_seek t), (Group roomId, Out_skip_counts_update zero_counts)])
           else (store a (r\<lparr>skipUsers := finsert sock (skipUsers r),
                             skipCounts := (skipCounts r)(d \<mapsto> Num k)\<rparr>) s1,
                 [(Group roomId, Out_skip_counts_update ((skipCounts r)(d \<mapsto> Num k)))]))"
proof -
  have ok: "counts_ok r" using assms(1) by (rule counts_ok_reachable)
  note t = counts_ok_direction [OF ok assms(3)]
  show ?thesis
    using t skip_request_counted [OF assms(1,2,3) t(1)] by (simp add: Let_def)
qed

text \<open>
  An instance: in the room of four, after the forward vote of \<open>a\<close>, the forward vote of
  \<open>b\<close> makes the tally 2, which is half of 4, and the quorum fires.
\<close>

theorem skip_quorum_witness:
  "rooms_get (run voted_events init_server) ''R'' = Some (0, voted_room)
   \<and> ''b'' |\<notin>| skipUsers voted_room
   \<and> tally voted_room ''forward'' = 1
   \<and> skip_request ''b'' ''R'' ''forward'' (run voted_events init_server) =
       (store 0 (voted_room\<lparr>currentTime := 10, skipCounts := zero_counts, skipUsers := {||}\<rparr>)
          (voted\<lparr>timers := [Timer 0 ''a'' ''R'' ''forward'', Timer 0 ''b'' ''R'' ''forward'']\<rparr>),
        [(Group ''R'', Out_video_seek 10), (Group ''R'', Out_skip_counts_update zero_counts)])"
  using skip_quorum [of voted_events "''R''" 0 voted_room "''b''" "''forward''"]
  unfolding voted_def [symmetric]
  by (simp add: voted_get) (simp add: voted_room_def party_room_def solo_room_def voted_eq tally_def)

subsection \<open>Bore votes\<close>

text \<open>
  Claim C4. A bore vote by a connection that has not voted yet is announced with the new
  count, and the quorum fires exactly when that count is strictly greater than half the
  number of participants. On quorum, a non-empty recommendation queue loses its front, which
  becomes the video of the room at time 0 and playing, with a \<^verbatim>\<open>video_changed\<close> broadcast;
  an empty queue stops playback. In both cases the bore votes are then emptied and the count
  0 is broadcast. Without quorum the vote is recorded.
\<close>

theorem bore_quorum:
  assumes "rooms_get s roomId = Some (a, r)"
    and "sock |\<notin>| boreVotes r"
  shows "bore_vote sock roomId s =
     (let n = Suc (fcard (boreVotes r))
      in if real (length (users r)) / 2 < real n
         then (case recommendQueue r of
                 v # rest \<Rightarrow>
                   (store a (r\<lparr>recommendQueue := rest, videoId := v, currentTime := 0,
                                isPlaying := True, boreVotes := {||}\<rparr>) s,
                    [(Group roomId, Out_bore_vote_update n),
                     (Group roomId, Out_video_changed v 0 True zero_counts),
                     (Group roomId, Out_recommend_queue_updated rest),
                     (Group roomId, Out_bore_vote_update 0)])
               | [] \<Rightarrow>
                   (store a (r\<lparr>isPlaying := False, boreVotes := {||}\<rparr>) s,
                    [(Group roomId, Out_bore_vote_update n), (Group roomId, Out_bore_vote_update 0)]))
         else (store a (r\<lparr>boreVotes := finsert sock (boreVotes r)\<rparr>) s,
               [(Group roomId, Out_bore_vote_update n)]))"
  using assms by (rule bore_vote_counted)

text \<open>
  An instance: in the room of four, after the bore vote of \<open>a\<close>, the bore vote of \<open>b\<close>
  makes the count 2, which is not more than half of 4: no quorum, where the same count of
  skip votes fires.
\<close>

theorem bore_quorum_witness:
  "rooms_get voted ''R'' = Some (0, voted_room) \<and> ''b'' |\<notin>| boreVotes voted_room
   \<and> bore_vote ''b'' ''R'' voted =
       (store 0 (voted_room\<lparr>boreVotes := {|''b'', ''a''|}\<rparr>) voted,
        [(Group ''R'', Out_bore_vote_update 2)])"
  using bore_quorum [of voted "''R''" 0 voted_room "''b''"]
  by (simp add: voted_get) (simp add: voted_room_def party_room_def solo_room_def fcard_finsert_if)

subsection \<open>Votes cast twice\<close>

text \<open>
  Both vote handlers return at once, with the server state as it is and nothing emitted,
  when the sender is in the voter set of the room. The bore votes of a room are only ever
  emptied, by the quorum and by \<^verbatim>\<open>video_ended\<close>, so a bore voter stays in its set until
  the reset. A skip voter is also taken out of its set by every timer that carries its
  socket id.
\<close>

lemma recorded_voter_dropped:
  assumes "rooms_get s roomId = Some (a, r)"
  shows "sock |\<in>| skipUsers r \<Longrightarrow> skip_request sock roomId d s = (s, [])"
    and "sock |\<in>| boreVotes r \<Longrightarrow> bore_vote sock roomId s = (s, [])"
  using assms by (simp_all add: skip_request_def bore_vote_def)

text \<open>
  Claim C8, at the input where the code departs from it. In the room of four, \<open>a\<close> and \<open>b\<close>
  vote forward, which reaches the quorum and resets the votes, and \<open>a\<close> votes backward, the
  first vote of the new round: the time is 10, the backward tally is 1 and \<open>a\<close> is the
  only voter. The timer of the forward vote of \<open>a\<close>, cast before the reset and never
  cancelled, fires next and takes \<open>a\<close> out of the voter set, while the backward tally
  stays 1 and the timer of the backward vote is still pending. A second backward vote of
  \<open>a\<close> is then accepted: the tally becomes 2, which is half of 4, and \<open>a\<close> alone reaches
  the quorum, which moves the time back to 0.
\<close>

theorem stale_expiry_admits_second_vote:
  "map_option (\<lambda>(a, r). (currentTime r, skipCounts r ''backward'', skipUsers r))
      (rooms_get (run revote_events init_server) ''R'') = Some (10, Some (Num 1), {|''a''|})
   \<and> map_option (\<lambda>(a, r). (currentTime r, skipCounts r ''backward'', skipUsers r))
      (rooms_get (run (revote_events @ [On_timer]) init_server) ''R'')
       = Some (10, Some (Num 1), {||})
   \<and> timers (run (revote_events @ [On_timer]) init_server) =
       [Timer 0 ''b'' ''R'' ''forward'', Timer 0 ''a'' ''R'' ''backward'']
   \<and> snd (handle (On_skip_request ''a'' ''R'' ''backward'')
            (run (revote_events @ [On_timer]) init_server)) =
       [(Group ''R'', Out_video_seek 0), (Group ''R'', Out_skip_counts_update zero_counts)]
   \<and> map_option (\<lambda>(a, r). (currentTime r, skipCounts r ''backward'', skipUsers r))
      (rooms_get (run (revote_events @ [On_timer, On_skip_request ''a'' ''R'' ''backward''])
         init_server) ''R'')
       = Some (0, Some (Num 0), {||})"
  unfolding revote_events_def run_append party_def [symmetric]
  by (simp add: party_eq party_room_def solo_room_def handler_defs zero_counts_def)

subsection \<open>Votes of connections that are not participants\<close>

text \<open>
  Claim C9. In a room that a sequence of events has built, a connection that is not in
  \<open>users\<close> and has no pending vote can cast a skip vote and a bore vote. Neither handler
  adds it to \<open>users\<close>, and each compares the count that includes the vote with half the
  number of participants, which does not include the voter: either the quorum effect takes
  place, or the connection is recorded in the voter set and the tally is raised by one.
\<close>

theorem outsider_vote_counted:
  assumes "rooms_get (run es init_server) roomId = Some (a, r)"
    and "map_of (users r) sock = None"
    and "sock |\<notin>| skipUsers r"
    and "sock |\<notin>| boreVotes r"
    and "d = ''forward'' \<or> d = ''backward''"
  shows "\<exists>r1 r2.
      rooms_get (fst (skip_request sock roomId d (run es init_server))) roomId = Some (a, r1)
    \<and> rooms_get (fst (bore_vote sock roomId (run es init_server))) roomId = Some (a, r2)
    \<and> users r1 = users r \<and> users r2 = users r
    \<and> (if real (length (users r)) / 2 \<le> real_of_int (tally r d + 1)
       then currentTime r1 = max (currentTime r + (if d = ''forward'' then 10 else - 10)) 0
            \<and> skipUsers r1 = {||}
       else skipUsers r1 = finsert sock (skipUsers r) \<and> tally r1 d = tally r d + 1)
    \<and> (if real (length (users r)) / 2 < real (Suc (fcard (boreVotes r)))
       then boreVotes r2 = {||}
            \<and> (case recommendQueue r of
                  [] \<Rightarrow> \<not> isPlaying r2
                | v # rest \<Rightarrow> videoId r2 = v \<and> recommendQueue r2 = rest)
       else boreVotes r2 = finsert sock (boreVotes r))"
proof -
  let ?s = "run es init_server"
  have ok: "counts_ok r" using assms(1) by (rule counts_ok_reachable)
  note t = counts_ok_direction [OF ok assms(5)]
  have m: "map_of (rooms ?s) roomId = Some a"
    using assms(1) by (simp add: rooms_get_def split: option.splits)
  have g: "\<And>r' s'. rooms s' = rooms ?s \<Longrightarrow> rooms_get (store a r' s') roomId = Some (a, r')"
    using m by (simp add: rooms_get_def store_def)
  define r1 where "r1 =
     (if real (length (users r)) / 2 \<le> real_of_int (tally r d + 1)
      then r\<lparr>currentTime := max (currentTime r + (if d = ''forward'' then 10 else - 10)) 0,
             skipCounts := zero_counts, skipUsers := {||}\<rparr>
      else r\<lparr>skipUsers := finsert sock (skipUsers r),
             skipCounts := (skipCounts r)(d \<mapsto> Num (tally r d + 1))\<rparr>)"
  have r1: "fst (skip_request sock roomId d ?s) =
      store a r1 (?s\<lparr>timers := timers ?s @ [Timer a sock roomId d]\<rparr>)"
    unfolding skip_request_counted [OF assms(1,3,5) t(1)] by (simp add: r1_def Let_def)
  have u1: "users r1 = users r" by (simp add: r1_def)
  have q1: "(if real (length (users r)) / 2 \<le> real_of_int (tally r d + 1)
       then currentTime r1 = max (currentTime r + (if d = ''forward'' then 10 else - 10)) 0
            \<and> skipUsers r1 = {||}
       else skipUsers r1 = finsert sock (skipUsers r) \<and> tally r1 d = tally r d + 1)"
    by (simp add: r1_def tally_def)
  define r2 where "r2 =
     (if real (length (users r)) / 2 < real (Suc (fcard (boreVotes r)))
      then (fst (play_next roomId r))\<lparr>boreVotes := {||}\<rparr>
      else r\<lparr>boreVotes := finsert sock (boreVotes r)\<rparr>)"
  have r2: "fst (bore_vote sock roomId ?s) = store a r2 ?s"
    unfolding bore_vote_counted [OF assms(1,4)]
    by (simp add: play_next_def r2_def Let_def split: list.splits)
  have u2: "users r2 = users r"
    by (simp add: r2_def play_next_def split: list.splits)
  have q2: "(if real (length (users r)) / 2 < real (Suc (fcard (boreVotes r)))
       then boreVotes r2 = {||}
            \<and> (case recommendQueue r of
                  [] \<Rightarrow> \<not> isPlaying r2
                | v # rest \<Rightarrow> videoId r2 = v \<and> recommendQueue r2 = rest)
       else boreVotes r2 = finsert sock (boreVotes r))"
    by (simp add: r2_def play_next_def split: list.splits)
  show ?thesis
    using r1 u1 q1 r2 u2 q2 g by (intro exI [of _ r1] exI [of _ r2]) simp
qed

text \<open>
  An instance: in the room where only the host has joined, one skip vote and one bore vote
  of a connection \<open>x\<close> that never joined each reach the quorum by themselves.
\<close>

theorem outsider_vote_counted_witness:
  "rooms_get (run solo_events init_server) ''R'' = Some (0, solo_room)
   \<and> map_of (users solo_room) ''x'' = None
   \<and> ''x'' |\<notin>| skipUsers solo_room \<and> ''x'' |\<notin>| boreVotes solo_room
   \<and> (\<exists>r1 r2. rooms_get (fst (skip_request ''x'' ''R'' ''forward'' solo)) ''R'' = Some (0, r1)
        \<and> rooms_get (fst (bore_vote ''x'' ''R'' solo)) ''R'' = Some (0, r2)
        \<and> users r1 = [(''h'', ''Host'')] \<and> users r2 = [(''h'', ''Host'')]
        \<and> currentTime r1 = 10 \<and> skipUsers r1 = {||}
        \<and> boreVotes r2 = {||} \<and> \<not> isPlaying r2)"
  using outsider_vote_counted [of solo_events "''R''" 0 solo_room "''x''" "''forward''"]
  unfolding solo_def [symmetric]
  by (simp add: solo_get) (simp add: solo_room_def tally_def)

subsection \<open>Other direction strings\<close>

lemma tally_after_vote:
  assumes "d \<notin> set object_prototype_keys" and "skipCounts r d \<noteq> Some NonNumeric"
  shows "js_add1 (js_or0 (obj_get (skipCounts r) d)) = Num (tally r d + 1)"
proof (cases "skipCounts r d")
  case None
  then show ?thesis using assms(1) by (simp add: obj_get_def tally_def)
next
  case (Some v)
  then show ?thesis using assms(2) by (cases v) (simp_all add: tally_def)
qed

text \<open>
  Claim C10, as amended. In a room that a sequence of events has built, a \<^verbatim>\<open>skip_request\<close>
  whose direction is a string other than \<^verbatim>\<open>forward\<close> and \<^verbatim>\<open>backward\<close>, and is not the
  name of a property that objects inherit from \<^verbatim>\<open>Object.prototype\<close>, is counted under
  that key, from 0 when the key is new; the quorum test reads that count, and a quorum
  moves the time back by ten seconds.
\<close>

theorem other_direction_recorded:
  assumes "rooms_get (run es init_server) roomId = Some (a, r)"
    and "sock |\<notin>| skipUsers r"
    and "d \<noteq> ''forward''" and "d \<noteq> ''backward''"
    and "d \<notin> set object_prototype_keys"
  shows "skip_request sock roomId d (run es init_server) =
         spec_skip_other_direction sock roomId d a r (run es init_server)"
proof -
  have ok: "counts_ok r" using assms(1) by (rule counts_ok_reachable)
  have nn: "skipCounts r d \<noteq> Some NonNumeric"
    using ok assms(5) by (auto simp: counts_ok_def)
  have d: "d \<noteq> ''__proto__''"
    using assms(5) by (auto simp: object_prototype_keys_def)
  show ?thesis
    using assms(1,2,3) d
    by (simp add: skip_request_def spec_skip_other_direction_def Let_def
        tally_after_vote [OF assms(5) nn] del: js_or0.simps)
qed

text \<open>
  An instance: the direction \<open>up\<close>, voted by \<open>x\<close> in the room of one, is counted as 1 and
  reaches the quorum.
\<close>

theorem other_direction_recorded_witness:
  "rooms_get (run solo_events init_server) ''R'' = Some (0, solo_room)
   \<and> ''x'' |\<notin>| skipUsers solo_room
   \<and> ''up'' \<noteq> ''forward'' \<and> ''up'' \<noteq> ''backward'' \<and> ''up'' \<notin> set object_prototype_keys
   \<and> skip_request ''x'' ''R'' ''up'' solo =
       (store 0 (solo_room\<lparr>currentTime := 0, skipCounts := zero_counts, skipUsers := {||}\<rparr>)
          (solo\<lparr>timers := [Timer 0 ''x'' ''R'' ''up'']\<rparr>),
        [(Group ''R'', Out_video_seek 0), (Group ''R'', Out_skip_counts_update zero_counts)])"
  using other_direction_recorded [of solo_events "''R''" 0 solo_room "''x''" "''up''"]
  unfolding solo_def [symmetric]
  by (simp add: solo_get)
    (simp add: solo_room_def object_prototype_keys_def zero_counts_def tally_def
      spec_skip_other_direction_def solo_eq)

text \<open>
  Claim C10 as stated fails for a direction such as \<open>toString\<close>. The key is not an own
  property of the tally object, but the lookup finds the inherited function, which is
  truthy; adding 1 makes a string of it, and the comparison with half the room size is
  false. In the room of one, where the count 1 would reach the quorum, there is no quorum
  and the entry under the key is not a number.
\<close>

theorem inherited_key_counterexample:
  "skip_request ''x'' ''R'' ''toString'' solo =
     (store 0 (solo_room\<lparr>skipUsers := {|''x''|},
                         skipCounts := zero_counts(''toString'' \<mapsto> NonNumeric)\<rparr>)
        (solo\<lparr>timers := [Timer 0 ''x'' ''R'' ''toString'']\<rparr>),
      [(Group ''R'', Out_skip_counts_update (zero_counts(''toString'' \<mapsto> NonNumeric)))])
   \<and> skip_request ''x'' ''R'' ''toString'' solo
       \<noteq> spec_skip_other_direction ''x'' ''R'' ''toString'' 0 solo_room solo"
  by (simp add: skip_request_def spec_skip_other_direction_def solo_get solo_room_def solo_timers
      obj_get_def obj_set_def object_prototype_keys_def zero_counts_def tally_def Let_def)

subsection \<open>The host leaves\<close>

lemma map_of_delete_same: "map_of (AList.delete k al) k = None"
  by (simp add: AList.delete_eq map_of_eq_None_iff image_iff)

text \<open>
  When the loop of the disconnect handlers finds a room of which the leaving connection is
  the host, the room is closed: \<^verbatim>\<open>room_closed\<close> goes to the group, the room is no longer
  in the room map, the group is emptied, and a later \<^verbatim>\<open>join_room\<close> is answered with the
  error for a room that does not exist.
\<close>

lemma host_leave_closes_room:
  assumes "first_room_of (heap s) sock (rooms s) = Some (roomId, a, r)"
    and "hostId r = sock"
  shows "snd (leave_room sock s) = [(Group roomId, Out_room_closed)]"
    and "rooms_get (fst (leave_room sock s)) roomId = None"
    and "groups (fst (leave_room sock s)) roomId = {||}"
    and "join_room sock' roomId nickname pw (fst (leave_room sock s)) =
           (fst (leave_room sock s), [(Sock sock', Out_error NoSuchRoom)])"
proof -
  show "snd (leave_room sock s) = [(Group roomId, Out_room_closed)]"
    using assms by (simp add: leave_room_def Let_def)
  show g: "rooms_get (fst (leave_room sock s)) roomId = None"
    using assms
    by (simp add: leave_room_def Let_def rooms_get_def sockets_leave_def store_def map_of_delete_same)
  show "groups (fst (leave_room sock s)) roomId = {||}"
    using assms by (simp add: leave_room_def Let_def sockets_leave_def)
  show "join_room sock' roomId nickname pw (fst (leave_room sock s)) =
           (fst (leave_room sock s), [(Sock sock', Out_error NoSuchRoom)])"
    using g by (simp add: join_room_def)
qed

text \<open>
  Claim C5, at the input where the code departs from it. The loop looks for the leaving
  connection in \<open>users\<close>, and \<^verbatim>\<open>create_room\<close> does not put the host there. A host that
  disconnects after \<^verbatim>\<open>create_room\<close> and before \<^verbatim>\<open>join_room\<close> is found in no room: the
  room stays in the room map without its host, and a later \<^verbatim>\<open>join_room\<close> of a guest is
  answered with \<^verbatim>\<open>room_data\<close>.
\<close>

theorem host_gone_before_join_room_stays:
  "handle (On_disconnect ''h'') (run [On_create_room ''h'' ''R'' ''v1'' None] init_server) =
     (orphaned, [])
   \<and> rooms_get orphaned ''R'' = Some (0, fresh_room)
   \<and> hostId fresh_room = ''h''
   \<and> snd (handle (On_join_room ''g'' ''R'' ''Guest'' None) orphaned) =
       [(Sock ''g'', Out_room_data
           \<lparr>rd_videoId = ''v1'', rd_isHost = False, rd_currentTime = 0, rd_isPlaying = False,
            rd_skipCounts = zero_counts, rd_usersCount = 1, rd_userList = [''Guest''],
            rd_isLocked = False, rd_recommendQueue = []\<rparr>),
        (Group ''R'', Out_user_list_update [''Guest''])]"
  by (simp add: orphaned_def fresh_room_def solo_room_def init_server_def handler_defs)

subsection \<open>The host changes the video\<close>

text \<open>
  \<^verbatim>\<open>change_video\<close> of the host: the new video at time 0, playing, both skip tallies 0 and
  the skip voters emptied, announced to the whole group. The bore votes are not touched.
\<close>

lemma change_video_by_host:
  assumes "rooms_get s roomId = Some (a, r)" and "sock = hostId r"
  shows "change_video sock roomId v s =
     (store a (r\<lparr>videoId := v, currentTime := 0, isPlaying := True,
                 skipCounts := zero_counts, skipUsers := {||}\<rparr>) s,
      [(Group roomId, Out_video_changed v 0 True zero_counts)])"
  using assms by (simp add: change_video_def Let_def)

text \<open>
  Claim C6, at the input where the code departs from it. In the room of four, \<open>a\<close> holds a
  skip vote and a bore vote; after \<^verbatim>\<open>change_video\<close> of the host the skip voters are
  empty and the bore vote of \<open>a\<close> still stands.
\<close>

theorem change_video_keeps_bore_votes:
  "map_option (\<lambda>(a, r). (skipUsers r, boreVotes r)) (rooms_get voted ''R'')
     = Some ({|''a''|}, {|''a''|})
   \<and> map_option (\<lambda>(a, r). (videoId r, currentTime r, skipUsers r, boreVotes r))
        (rooms_get (fst (handle (On_change_video ''h'' ''R'' ''v2'') voted)) ''R'')
     = Some (''v2'', 0, {||}, {|''a''|})"
  by (simp add: voted_eq voted_room_def party_eq party_room_def solo_room_def handler_defs)

subsection \<open>Expiry of a skip vote\<close>

text \<open>
  The timer of a vote for one of the two directions takes the voter out of the voter set
  and lowers the tally of that direction by one, not below 0, on the room object that the
  timer holds, whatever has happened to that room since the vote.
\<close>

lemma skip_expiry_direction:
  assumes "heap s a = Some r" and "d = ''forward'' \<or> d = ''backward''"
    and "skipCounts r d = Some (Num k)"
  shows "skip_expiry (Timer a sock roomId d) s =
     (store a (r\<lparr>skipUsers := skipUsers r |-| {|sock|},
                 skipCounts := (skipCounts r)(d \<mapsto> Num (max (k - 1) 0))\<rparr>) s,
      [(Group roomId, Out_skip_counts_update ((skipCounts r)(d \<mapsto> Num (max (k - 1) 0))))])"
proof -
  have d: "d \<noteq> ''__proto__''" using assms(2) by auto
  show ?thesis using assms(1,3) d by (simp add: skip_expiry_def Let_def)
qed

text \<open>
  Claim C7, at the input where the code departs from it. In the room of four, \<open>a\<close> votes
  forward, \<open>b\<close> votes forward and reaches the quorum, which resets the votes, and \<open>c\<close>
  votes forward after the reset: the tally is 1 and \<open>c\<close> is the only voter. The timers are
  never cancelled, so the timer of the vote of \<open>a\<close>, cast before the reset, fires next and
  lowers the tally to 0 while \<open>c\<close> still holds the vote.
\<close>

theorem stale_expiry_takes_later_vote:
  "map_option (\<lambda>(a, r). (skipCounts r ''forward'', skipUsers r))
      (rooms_get (run stale_timer_events init_server) ''R'') = Some (Some (Num 1), {|''c''|})
   \<and> timers (run stale_timer_events init_server) =
       [Timer 0 ''a'' ''R'' ''forward'', Timer 0 ''b'' ''R'' ''forward'', Timer 0 ''c'' ''R'' ''forward'']
   \<and> map_option (\<lambda>(a, r). (skipCounts r ''forward'', skipUsers r))
      (rooms_get (run (stale_timer_events @ [On_timer]) init_server) ''R'')
       = Some (Some (Num 0), {|''c''|})"
  unfolding stale_timer_events_def run_append party_def [symmetric]
  by (simp add: party_eq party_room_def solo_room_def handler_defs zero_counts_def)

end
